theory Spec2Isabelle
  imports Complex_Main "HOL-Library.Log_Nat"
begin

section \<open>The countdown timer of \<open>timer.py\<close>\<close>

text \<open>
  The program is one class, \<open>ModernTimer\<close>, whose methods are callbacks of a Tk event
  loop. Each method becomes a function from the object before the call to the object
  after it. The widgets the methods touch are fields of the object: the text of the
  time label, the state of the three buttons, the error labels packed in the input
  dialog, the callbacks registered with \<open>after\<close>, and the effects on the world outside
  (runs of the sound player, sleeps, console output).
\<close>

subsection \<open>Data\<close>

datatype TimerState = STOPPED | RUNNING | PAUSED

record TimerConfig =
  sound_file :: string
  volume :: string
  repetitions :: int
  window_size :: string
  font_size_large :: int
  font_size_normal :: int
  padding :: int

definition default_config :: TimerConfig where
  "default_config =
     \<lparr> sound_file = ''/System/Library/Sounds/Ping.aiff'', volume = ''4'', repetitions = 3,
       window_size = ''400x300'', font_size_large = 48, font_size_normal = 14,
       padding = 20 \<rparr>"

text \<open>The targets of \<open>root.after\<close> and \<open>dialog.after\<close>.\<close>

datatype callback = UpdateTimer | DestroyRoot | DestroyErrorLabel

text \<open>
  What \<open>play_alarm\<close> does outside the object: \<open>Afplay v f\<close> is a call of
  \<open>subprocess.run(['afplay', '-v', v, f])\<close> that returned, \<open>Sleep\<close> is
  \<open>time.sleep(0.1)\<close>, \<open>PrintError\<close> is the \<open>print\<close> of the exception handler.
\<close>

datatype effect = Afplay string string | Sleep | PrintError

record ModernTimer =
  config :: TimerConfig
  state :: TimerState
  remaining :: int
  time_label :: string
  iniciar_enabled :: bool
  pausar_enabled :: bool
  detener_enabled :: bool
  pausar_text :: string
  dialog_open :: bool
  error_labels :: "string list"
  after_calls :: "(nat \<times> callback) list"
  effects :: "effect list"

subsection \<open>The display\<close>

text \<open>
  \<open>str(n)\<close> for a natural number, and the format \<open>{n:02d}\<close> for an integer: the
  decimal digits, a minus sign before them when \<open>n < 0\<close>, padded with zeros after the
  sign to a width of at least two characters.
\<close>

definition digit_char :: "nat \<Rightarrow> char" where
  "digit_char d = ''0123456789'' ! d"

fun dec :: "nat \<Rightarrow> string" where
  "dec n = (if n < 10 then [digit_char n] else dec (n div 10) @ [digit_char (n mod 10)])"

declare dec.simps [simp del]

definition fmt_02d :: "int \<Rightarrow> string" where
  "fmt_02d n =
     (if n < 0 then CHR ''-'' # dec (nat (- n))
      else let ds = dec (nat n) in replicate (2 - length ds) CHR ''0'' @ ds)"

text \<open>Python's \<open>//\<close> and \<open>%\<close> round towards minus infinity, as \<open>div\<close> and \<open>mod\<close> on \<open>int\<close> do.\<close>

definition format_time :: "ModernTimer \<Rightarrow> string" where
  "format_time self =
     (let hours = remaining self div 3600;
          minutes = (remaining self mod 3600) div 60;
          seconds = remaining self mod 60
      in fmt_02d hours @ '':'' @ fmt_02d minutes @ '':'' @ fmt_02d seconds)"

definition update_display :: "ModernTimer \<Rightarrow> ModernTimer" where
  "update_display self = self\<lparr>time_label := format_time self\<rparr>"

subsection \<open>The alarm\<close>

text \<open>
  \<open>play_alarm\<close> loops \<open>repetitions\<close> times (\<open>range\<close> of a negative number is empty)
  inside one \<open>try\<close>. Whether a call of \<open>subprocess.run\<close> returns or raises is decided
  outside the program: \<open>runs i\<close> says that the call of iteration \<open>i\<close> returns. The first
  call that raises ends the loop in the handler, which prints.
\<close>

fun alarm_loop :: "(nat \<Rightarrow> bool) \<Rightarrow> TimerConfig \<Rightarrow> nat \<Rightarrow> nat \<Rightarrow> effect list" where
  "alarm_loop runs cfg i 0 = []"
| "alarm_loop runs cfg i (Suc n) =
     (if runs i then [Afplay (volume cfg) (sound_file cfg), Sleep] @ alarm_loop runs cfg (Suc i) n
      else [PrintError])"

definition play_alarm :: "(nat \<Rightarrow> bool) \<Rightarrow> ModernTimer \<Rightarrow> ModernTimer" where
  "play_alarm runs self =
     self\<lparr>effects := effects self @ alarm_loop runs (config self) 0 (nat (repetitions (config self)))\<rparr>"

subsection \<open>The countdown\<close>

definition update_timer :: "(nat \<Rightarrow> bool) \<Rightarrow> ModernTimer \<Rightarrow> ModernTimer" where
  "update_timer runs self =
     (if state self = RUNNING \<and> remaining self > 0 then
        (update_display self)
          \<lparr>remaining := remaining self - 1,
           after_calls := after_calls self @ [(1000, UpdateTimer)]\<rparr>
      else if state self = RUNNING \<and> remaining self \<le> 0 then
        (play_alarm runs (update_display self))
          \<lparr>state := STOPPED,
           after_calls := after_calls self @ [(1000, DestroyRoot)]\<rparr>
      else self)"

definition start_countdown :: "(nat \<Rightarrow> bool) \<Rightarrow> ModernTimer \<Rightarrow> ModernTimer" where
  "start_countdown runs self =
     update_timer runs
       (self\<lparr>state := RUNNING, pausar_enabled := True, detener_enabled := True,
             iniciar_enabled := False\<rparr>)"

definition pause_timer :: "(nat \<Rightarrow> bool) \<Rightarrow> ModernTimer \<Rightarrow> ModernTimer" where
  "pause_timer runs self =
     (if state self \<in> {RUNNING, PAUSED} then
        let s1 = self\<lparr>state := (if state self = RUNNING then PAUSED else RUNNING)\<rparr>;
            s2 = s1\<lparr>pausar_text := (if state s1 = PAUSED then ''Reanudar'' else ''Pausar'')\<rparr>
        in if state s2 = RUNNING then update_timer runs s2 else s2
      else self)"

definition stop_timer :: "ModernTimer \<Rightarrow> ModernTimer" where
  "stop_timer self =
     (update_display (self\<lparr>state := STOPPED, remaining := 0\<rparr>))
       \<lparr>iniciar_enabled := True, pausar_enabled := False, detener_enabled := False\<rparr>"

text \<open>The object as \<open>__init__\<close> leaves it, with the input dialog open.\<close>

definition init_timer :: "TimerConfig \<Rightarrow> ModernTimer" where
  "init_timer cfg =
     \<lparr> config = cfg, state = STOPPED, remaining = 0, time_label = ''00:00:00'',
       iniciar_enabled = True, pausar_enabled = False, detener_enabled = False,
       pausar_text = ''Pausar'', dialog_open = True, error_labels = [],
       after_calls = [], effects = [] \<rparr>"

subsection \<open>Python floats\<close>

text \<open>
  \<open>process_time_input\<close> converts the text of the entry with \<open>float\<close>, compares the
  result with 0, multiplies it by 60 or 1 and truncates it with \<open>int\<close>. A Python float
  is an IEEE 754 binary64 value: a finite double is modelled by the rational number it
  denotes (the two zeros are one value, which no operation used here tells apart), next
  to the two infinities and NaN.
\<close>

datatype py_error = ValueError | OverflowError

datatype py_float = Finite rat | PInf | NInf | NaN

text \<open>\<open>floor_log2 x\<close> is the exponent \<open>e\<close> with \<open>2^e \<le> x < 2^(e+1)\<close>, for \<open>x > 0\<close>.\<close>

definition floor_log2 :: "rat \<Rightarrow> int" where
  "floor_log2 x =
     (if 1 \<le> x then int (floorlog 2 (nat \<lfloor>x\<rfloor>)) - 1
      else - int (floorlog 2 (nat (\<lceil>1 / x\<rceil> - 1))))"

definition round_half_even :: "rat \<Rightarrow> int" where
  "round_half_even x =
     (let f = \<lfloor>x\<rfloor>; r = x - of_int f
      in if r < 1 / 2 then f else if 1 / 2 < r then f + 1 else if even f then f else f + 1)"

text \<open>
  Rounding of a real value to the nearest double, ties to even: 53 significant bits for
  normal numbers, multiples of \<open>2^-1074\<close> below \<open>2^-1022\<close>, and an infinity when the
  rounded magnitude reaches \<open>2^1024\<close>. Both \<open>float\<close> of a string and the product of
  two floats round their exact result this way.
\<close>

definition round_double :: "rat \<Rightarrow> py_float" where
  "round_double x =
     (if x = 0 then Finite 0
      else let a = \<bar>x\<bar>;
               e = floor_log2 a;
               u = max e (- 1022) - 52;
               r = of_int (round_half_even (a / 2 powi u)) * 2 powi u
           in if 2 powi 1024 \<le> r then (if 0 < x then PInf else NInf)
              else Finite (if 0 < x then r else - r))"

text \<open>The comparison \<open>time_val <= 0\<close>; every comparison with NaN is false.\<close>

fun float_le_zero :: "py_float \<Rightarrow> bool" where
  "float_le_zero (Finite q) = (q \<le> 0)"
| "float_le_zero PInf = False"
| "float_le_zero NInf = True"
| "float_le_zero NaN = False"

text \<open>
  The product \<open>time_val * k\<close> of a float and an \<open>int\<close> that converts to a double
  exactly (here 60 and 1).
\<close>

fun float_mul_int :: "py_float \<Rightarrow> int \<Rightarrow> py_float" where
  "float_mul_int (Finite q) k = round_double (q * of_int k)"
| "float_mul_int PInf k = (if 0 < k then PInf else if k < 0 then NInf else NaN)"
| "float_mul_int NInf k = (if 0 < k then NInf else if k < 0 then PInf else NaN)"
| "float_mul_int NaN k = NaN"

text \<open>
  \<open>int(x)\<close> truncates towards zero; it raises \<open>OverflowError\<close> on an infinity and
  \<open>ValueError\<close> on NaN.
\<close>

fun py_int :: "py_float \<Rightarrow> py_error + int" where
  "py_int (Finite q) = Inr (if 0 \<le> q then \<lfloor>q\<rfloor> else \<lceil>q\<rceil>)"
| "py_int PInf = Inl OverflowError"
| "py_int NInf = Inl OverflowError"
| "py_int NaN = Inl ValueError"

subsection \<open>\<open>float\<close> of a string\<close>

text \<open>
  A character is a code point below 256, so a string is a Python string of such code
  points. \<open>float\<close> strips white space at both ends, accepts single underscores between
  digits, an optional sign, and then either \<open>inf\<close>, \<open>infinity\<close> or \<open>nan\<close> in any case,
  or a decimal numeral: digits with an optional point, at least one digit before or after
  it, and an optional exponent. Everything else raises \<open>ValueError\<close>.

  The white space that \<open>float\<close> strips is tab, line feed, vertical tab, form feed,
  carriage return and space, and of the code points from 128 on the next-line character
  \<open>0x85\<close> and the no-break space \<open>0xA0\<close>. The decimal digits below 256 are \<open>0\<close> to
  \<open>9\<close>, and the keywords are compared after folding \<open>A\<close> to \<open>Z\<close> only.
\<close>

definition is_space :: "char \<Rightarrow> bool" where
  "is_space c =
     (c \<in> set [CHR 0x09, CHR 0x0A, CHR 0x0B, CHR 0x0C, CHR 0x0D, CHR '' '', CHR 0x85, CHR 0xA0])"

definition is_digit :: "char \<Rightarrow> bool" where
  "is_digit c = (c \<in> set ''0123456789'')"

definition digit_val :: "char \<Rightarrow> nat" where
  "digit_val c = of_char c - 48"

definition digits_value :: "string \<Rightarrow> nat" where
  "digits_value ds = foldl (\<lambda>a c. 10 * a + digit_val c) 0 ds"

definition ascii_lower :: "char \<Rightarrow> char" where
  "ascii_lower c =
     (case map_of (zip ''ABCDEFGHIJKLMNOPQRSTUVWXYZ'' ''abcdefghijklmnopqrstuvwxyz'') c of
        None \<Rightarrow> c | Some l \<Rightarrow> l)"

definition strip_ws :: "string \<Rightarrow> string" where
  "strip_ws s = rev (dropWhile is_space (rev (dropWhile is_space s)))"

text \<open>
  An underscore must follow a digit and be followed by a digit; \<open>prev\<close> is the
  character before, NUL at the start.
\<close>

fun remove_underscores :: "char \<Rightarrow> string \<Rightarrow> string option" where
  "remove_underscores prev [] = (if prev = CHR ''_'' then None else Some [])"
| "remove_underscores prev (c # cs) =
     (if c = CHR ''_'' then
        (if is_digit prev then remove_underscores c cs else None)
      else if prev = CHR ''_'' \<and> \<not> is_digit c then None
      else map_option ((#) c) (remove_underscores c cs))"

definition parse_sign :: "string \<Rightarrow> bool \<times> string" where
  "parse_sign s =
     (case s of
        [] \<Rightarrow> (False, [])
      | c # r \<Rightarrow> if c = CHR ''-'' then (True, r) else if c = CHR ''+'' then (False, r)
                 else (False, s))"

definition parse_exponent :: "string \<Rightarrow> int option" where
  "parse_exponent s =
     (case s of
        [] \<Rightarrow> Some 0
      | c # t \<Rightarrow>
          if c = CHR ''e'' \<or> c = CHR ''E'' then
            (let (eneg, ds) = parse_sign t
             in if ds \<noteq> [] \<and> list_all is_digit ds
                then Some (if eneg then - int (digits_value ds) else int (digits_value ds))
                else None)
          else None)"

text \<open>
  A literal is one of the three special values, or a sign, the digits read as one
  natural number, and the power of ten that scales them.
\<close>

datatype literal = Special py_float | Decimal bool nat int

definition parse_float_literal :: "string \<Rightarrow> literal option" where
  "parse_float_literal s =
     (let (neg, r) = parse_sign s;
          l = map ascii_lower r
      in if l = ''inf'' \<or> l = ''infinity'' then Some (Special (if neg then NInf else PInf))
         else if l = ''nan'' then Some (Special NaN)
         else
           let ip = takeWhile is_digit r;
               r1 = dropWhile is_digit r;
               (fp, r2) = (case r1 of
                             [] \<Rightarrow> ([], r1)
                           | c # t \<Rightarrow> if c = CHR ''.''
                                      then (takeWhile is_digit t, dropWhile is_digit t)
                                      else ([], r1))
           in if ip = [] \<and> fp = [] then None
              else (case parse_exponent r2 of
                      None \<Rightarrow> None
                    | Some ex \<Rightarrow> Some (Decimal neg (digits_value (ip @ fp)) (ex - int (length fp)))))"

definition float_of_string :: "string \<Rightarrow> py_error + py_float" where
  "float_of_string s =
     (case remove_underscores (CHR 0x00) (strip_ws s) of
        None \<Rightarrow> Inl ValueError
      | Some t \<Rightarrow>
          (case parse_float_literal t of
             None \<Rightarrow> Inl ValueError
           | Some (Special f) \<Rightarrow> Inr f
           | Some (Decimal neg d k) \<Rightarrow>
               Inr (round_double ((if neg then - 1 else 1) * of_nat d * 10 powi k))))"

subsection \<open>The input dialog\<close>

text \<open>
  \<open>validate_input\<close> is \<open>re.match(r'^\d+(\.\d+)?$', input_text)\<close>, read as a truth
  value; \<open>$\<close> also matches before a newline that ends the string. No method of the class
  calls it.
\<close>

definition matches_number :: "string \<Rightarrow> bool" where
  "matches_number s =
     (let ip = takeWhile is_digit s; r = dropWhile is_digit s
      in ip \<noteq> [] \<and>
         (case r of
            [] \<Rightarrow> True
          | c # t \<Rightarrow> c = CHR ''.'' \<and> t \<noteq> [] \<and> list_all is_digit t))"

definition validate_input :: "string \<Rightarrow> bool" where
  "validate_input input_text =
     (matches_number input_text \<or>
      (input_text \<noteq> [] \<and> last input_text = CHR 0x0A \<and> matches_number (butlast input_text)))"

text \<open>
  The message of \<open>process_time_input\<close>, one character for each code point
  (\<open>0xFA\<close> is u with acute, \<open>0xE1\<close> is a with acute).
\<close>

definition error_text :: string where
  "error_text =
     ''Por favor ingrese un n'' @ [CHR 0xFA] @ ''mero v'' @ [CHR 0xE1] @ ''lido mayor que 0''"

definition show_error_message :: "string \<Rightarrow> ModernTimer \<Rightarrow> ModernTimer" where
  "show_error_message message self =
     self\<lparr>error_labels := error_labels self @ [message],
          after_calls := after_calls self @ [(2000, DestroyErrorLabel)]\<rparr>"

text \<open>
  \<open>process_time_input\<close> runs while the input dialog is open; \<open>input_value\<close> is what
  \<open>self.time_entry.get()\<close> returns. The result is \<open>Inl e\<close> when the exception \<open>e\<close>
  leaves the method, which happens before any attribute is assigned. The handler
  \<open>except ValueError\<close> catches the \<open>ValueError\<close> of \<open>float\<close>, the one raised for a
  value \<open>\<le> 0\<close> and the one of \<open>int\<close>; nothing else.
\<close>

definition except_ValueError :: "py_error \<Rightarrow> ModernTimer \<Rightarrow> py_error + ModernTimer" where
  "except_ValueError e self =
     (if e = ValueError then Inr (show_error_message error_text self) else Inl e)"

definition process_time_input ::
  "(nat \<Rightarrow> bool) \<Rightarrow> string \<Rightarrow> string \<Rightarrow> ModernTimer \<Rightarrow> py_error + ModernTimer" where
  "process_time_input runs key input_value self =
     (if input_value = [] then Inr self
      else
        (case float_of_string input_value of
           Inl e \<Rightarrow> except_ValueError e self
         | Inr time_val \<Rightarrow>
             if float_le_zero time_val then except_ValueError ValueError self
             else
               (case py_int (float_mul_int time_val (if key = ''d'' then 60 else 1)) of
                  Inl e \<Rightarrow> except_ValueError e self
                | Inr n \<Rightarrow>
                    Inr (start_countdown runs (self\<lparr>remaining := n, dialog_open := False\<rparr>)))))"

text \<open>
  \<open>str.lower\<close> on code points below 256: the letters \<open>A\<close> to \<open>Z\<close> and the letters from
  \<open>0xC0\<close> to \<open>0xDE\<close>, the multiplication sign \<open>0xD7\<close> apart, move up by 32.
\<close>

definition lower_char :: "char \<Rightarrow> char" where
  "lower_char c =
     (case map_of
        (zip (''ABCDEFGHIJKLMNOPQRSTUVWXYZ'' @
              [CHR 0xC0, CHR 0xC1, CHR 0xC2, CHR 0xC3, CHR 0xC4, CHR 0xC5, CHR 0xC6, CHR 0xC7,
               CHR 0xC8, CHR 0xC9, CHR 0xCA, CHR 0xCB, CHR 0xCC, CHR 0xCD, CHR 0xCE, CHR 0xCF,
               CHR 0xD0, CHR 0xD1, CHR 0xD2, CHR 0xD3, CHR 0xD4, CHR 0xD5, CHR 0xD6,
               CHR 0xD8, CHR 0xD9, CHR 0xDA, CHR 0xDB, CHR 0xDC, CHR 0xDD, CHR 0xDE])
             (''abcdefghijklmnopqrstuvwxyz'' @
              [CHR 0xE0, CHR 0xE1, CHR 0xE2, CHR 0xE3, CHR 0xE4, CHR 0xE5, CHR 0xE6, CHR 0xE7,
               CHR 0xE8, CHR 0xE9, CHR 0xEA, CHR 0xEB, CHR 0xEC, CHR 0xED, CHR 0xEE, CHR 0xEF,
               CHR 0xF0, CHR 0xF1, CHR 0xF2, CHR 0xF3, CHR 0xF4, CHR 0xF5, CHR 0xF6,
               CHR 0xF8, CHR 0xF9, CHR 0xFA, CHR 0xFB, CHR 0xFC, CHR 0xFD, CHR 0xFE])) c of
        None \<Rightarrow> c | Some l \<Rightarrow> l)"

text \<open>
  \<open>str.isdigit\<close>: the string is not empty and each character is a digit, which below
  256 are \<open>0\<close> to \<open>9\<close> and the superscripts two, three and one (\<open>0xB2\<close>, \<open>0xB3\<close>,
  \<open>0xB9\<close>).
\<close>

definition isdigit :: "string \<Rightarrow> bool" where
  "isdigit s =
     (s \<noteq> [] \<and> list_all (\<lambda>c. is_digit c \<or> c \<in> set [CHR 0xB2, CHR 0xB3, CHR 0xB9]) s)"

text \<open>
  \<open>handle_key\<close> gets the character of the key event and returns \<open>"break"\<close> or \<open>None\<close>
  next to the object.
\<close>

definition handle_key ::
  "(nat \<Rightarrow> bool) \<Rightarrow> string \<Rightarrow> string \<Rightarrow> ModernTimer \<Rightarrow> py_error + (string option \<times> ModernTimer)" where
  "handle_key runs event_char input_value self =
     (let key = map lower_char event_char
      in if key \<in> {''d'', ''f''} then
           (case process_time_input runs key input_value self of
              Inl e \<Rightarrow> Inl e
            | Inr self' \<Rightarrow> Inr (Some ''break'', self'))
         else if event_char \<noteq> [] \<and>
                 \<not> (isdigit event_char \<or> event_char = ''.'') then
           Inr (Some ''break'', self)
         else Inr (None, self))"

subsection \<open>The event loop\<close>

text \<open>
  Between two confirmations of the input dialog the event loop calls \<open>update_timer\<close>
  (a callback registered with \<open>after\<close> comes due) and the commands of the buttons
  Pausar and Detener, one at a time and in any order.
\<close>

datatype event = Tick | PausePressed | StopPressed

fun dispatch :: "(nat \<Rightarrow> bool) \<Rightarrow> ModernTimer \<Rightarrow> event \<Rightarrow> ModernTimer" where
  "dispatch runs self Tick = update_timer runs self"
| "dispatch runs self PausePressed = pause_timer runs self"
| "dispatch runs self StopPressed = stop_timer self"

definition mainloop :: "(nat \<Rightarrow> bool) \<Rightarrow> event list \<Rightarrow> ModernTimer \<Rightarrow> ModernTimer" where
  "mainloop runs evs self = foldl (dispatch runs) self evs"

subsection \<open>Observations\<close>

text \<open>A sound player that always starts, and one that cannot be started.\<close>

definition player_ok :: "nat \<Rightarrow> bool" where
  "player_ok i = True"

definition player_missing :: "nat \<Rightarrow> bool" where
  "player_missing i = False"

fun is_afplay :: "effect \<Rightarrow> bool" where
  "is_afplay (Afplay v f) = True"
| "is_afplay e = False"

definition times_played :: "effect list \<Rightarrow> nat" where
  "times_played es = length (filter is_afplay es)"

text \<open>The fields of a displayed time: \<open>text.split(':')\<close>.\<close>

fun split_colon :: "string \<Rightarrow> string list" where
  "split_colon [] = [[]]"
| "split_colon (c # cs) =
     (if c = CHR '':'' then [] # split_colon cs
      else (case split_colon cs of [] \<Rightarrow> [[c]] | f # fs \<Rightarrow> (c # f) # fs))"

text \<open>A text of 310 digits, typed into the entry.\<close>

definition many_nines :: string where
  "many_nines =
     ''9999999999999999999999999999999999999999999999999999999999999999999999999999999999999999999999999999999999999999999999999999999999999999999999999999999999999999999999999999999999999999999999999999999999999999999999999999999999999999999999999999999999999999999999999999999999999999999999999999999999999999999999''"

text \<open>The object while a countdown runs with \<open>r\<close> seconds left, default configuration.\<close>

definition running_at :: "int \<Rightarrow> ModernTimer" where
  "running_at r = (init_timer default_config)\<lparr>state := RUNNING, remaining := r\<rparr>"

section \<open>Facts about the model\<close>

subsection \<open>Rounding to a double\<close>

lemma floor_log2_bounds:
  assumes "0 < x"
  shows "2 powi floor_log2 x \<le> x" and "x < 2 powi (floor_log2 x + 1)"
proof -
  have "2 powi floor_log2 x \<le> x \<and> x < 2 powi (floor_log2 x + 1)"
  proof (cases "1 \<le> x")
    case True
    define n where "n = nat \<lfloor>x\<rfloor>"
    have n1: "1 \<le> n" using True by (simp add: n_def le_nat_iff le_floor_iff)
    have e: "floor_log2 x = int (floorlog 2 n) - 1"
      using True by (simp add: floor_log2_def n_def)
    from floorlog_bounds[of n 2] n1
    have b: "2 ^ (floorlog 2 n - 1) \<le> n" "n < 2 ^ floorlog 2 n" by auto
    have fl1: "1 \<le> floorlog 2 n" using n1 floorlog_eq_zero_iff[of 2 n] by (cases "floorlog 2 n") auto
    have nx: "rat_of_nat n \<le> x" "x < rat_of_nat n + 1"
      using True unfolding n_def by linarith+
    have "floor_log2 x = int (floorlog 2 n - 1)"
      using fl1 by (simp add: e of_nat_diff)
    then have "2 powi floor_log2 x = (2::rat) ^ (floorlog 2 n - 1)"
      by (simp only: power_int_of_nat)
    also have "\<dots> = rat_of_nat (2 ^ (floorlog 2 n - 1))" by simp
    also have "\<dots> \<le> rat_of_nat n" using b(1) by (simp only: of_nat_le_iff)
    finally have lo: "2 powi floor_log2 x \<le> x" using nx by simp
    have "Suc n \<le> 2 ^ floorlog 2 n" using b(2) by simp
    then have "rat_of_nat (Suc n) \<le> rat_of_nat (2 ^ floorlog 2 n)"
      by (simp only: of_nat_le_iff)
    then have "rat_of_nat n + 1 \<le> rat_of_nat (2 ^ floorlog 2 n)" by simp
    also have "\<dots> = 2 powi (floor_log2 x + 1)"
      by (simp add: e)
    finally show ?thesis using lo nx by simp
  next
    case False
    define y where "y = 1 / x"
    have y1: "1 < y" using False assms by (simp add: y_def)
    define n where "n = nat (\<lceil>y\<rceil> - 1)"
    have c2: "2 \<le> \<lceil>y\<rceil>" using y1 by linarith
    have n1: "1 \<le> n" using c2 unfolding n_def by linarith
    have e: "floor_log2 x = - int (floorlog 2 n)"
      using False by (simp add: floor_log2_def n_def y_def)
    from floorlog_bounds[of n 2] n1
    have b: "2 ^ (floorlog 2 n - 1) \<le> n" "n < 2 ^ floorlog 2 n" by auto
    have fl1: "1 \<le> floorlog 2 n" using n1 floorlog_eq_zero_iff[of 2 n] by (cases "floorlog 2 n") auto
    have ny: "rat_of_nat n < y" "y \<le> rat_of_nat n + 1"
      using c2 unfolding n_def by linarith+
    have "Suc n \<le> 2 ^ floorlog 2 n" using b(2) by simp
    then have "rat_of_nat (Suc n) \<le> rat_of_nat (2 ^ floorlog 2 n)"
      by (simp only: of_nat_le_iff)
    then have "y \<le> rat_of_nat (2 ^ floorlog 2 n)"
      using ny(2) by simp
    then have "y \<le> 2 ^ floorlog 2 n" by simp
    then have "1 / 2 ^ floorlog 2 n \<le> 1 / y"
      using y1 by (simp add: frac_le)
    moreover have "(2::rat) powi floor_log2 x = 1 / 2 ^ floorlog 2 n"
      by (simp only: e power_int_minus power_int_of_nat inverse_eq_divide)
    moreover have xy: "1 / y = x" by (simp add: y_def)
    ultimately have lo: "2 powi floor_log2 x \<le> x" by simp
    have "rat_of_nat (2 ^ (floorlog 2 n - 1)) \<le> rat_of_nat n"
      using b(1) by (simp only: of_nat_le_iff)
    then have "rat_of_nat (2 ^ (floorlog 2 n - 1)) < y" using ny(1) by linarith
    then have "2 ^ (floorlog 2 n - 1) < y" by simp
    then have "1 / y < 1 / 2 ^ (floorlog 2 n - 1)"
      by (simp add: frac_less2)
    moreover have "floor_log2 x + 1 = - int (floorlog 2 n - 1)"
      using fl1 by (simp add: e of_nat_diff)
    then have "2 powi (floor_log2 x + 1) = (1::rat) / 2 ^ (floorlog 2 n - 1)"
      by (simp only: power_int_minus power_int_of_nat inverse_eq_divide)
    ultimately have "x < 2 powi (floor_log2 x + 1)" using xy by simp
    with lo show ?thesis by simp
  qed
  then show "2 powi floor_log2 x \<le> x" and "x < 2 powi (floor_log2 x + 1)" by simp_all
qed

lemma floor_log2_unique:
  assumes "2 powi e \<le> x" "x < 2 powi (e + 1)"
  shows "floor_log2 x = e"
proof -
  have x0: "0 < x" using assms(1) by (smt (verit) zero_less_power_int zero_less_numeral order_less_le_trans)
  note b = floor_log2_bounds[OF x0]
  have "(2::rat) powi e < 2 powi (floor_log2 x + 1)" using assms(1) b(2) by simp
  then have 1: "e < floor_log2 x + 1"
    using power_int_increasing[of "floor_log2 x + 1" e "2::rat"] by (cases "e < floor_log2 x + 1") auto
  have "(2::rat) powi floor_log2 x < 2 powi (e + 1)" using assms(2) b(1) by simp
  then have 2: "floor_log2 x < e + 1"
    using power_int_increasing[of "e + 1" "floor_log2 x" "2::rat"] by (cases "floor_log2 x < e + 1") auto
  from 1 2 show ?thesis by simp
qed

lemma round_half_even_of_int: "round_half_even (of_int m) = m"
  by (simp add: round_half_even_def)

lemma round_half_even_ge_floor: "\<lfloor>x\<rfloor> \<le> round_half_even x"
  by (simp add: round_half_even_def Let_def)

lemma round_half_even_le_ceiling: "round_half_even x \<le> \<lceil>x\<rceil>"
proof (cases "x = of_int \<lfloor>x\<rfloor>")
  case True
  then have "round_half_even x = \<lfloor>x\<rfloor>"
    by (metis round_half_even_of_int)
  then show ?thesis by (simp add: floor_le_ceiling)
next
  case False
  then have "\<lceil>x\<rceil> = \<lfloor>x\<rfloor> + 1"
    by (metis ceiling_altdef)
  then show ?thesis by (simp add: round_half_even_def Let_def)
qed

lemma round_half_even_lower: "of_int k \<le> x \<Longrightarrow> k \<le> round_half_even x"
  using round_half_even_ge_floor[of x] le_floor_iff[of k x] by linarith

lemma round_half_even_upper: "x \<le> of_int k \<Longrightarrow> round_half_even x \<le> k"
  using round_half_even_le_ceiling[of x] ceiling_le_iff[of x k] by linarith

lemma pow2_pos: "0 < (2::rat) powi e"
  by simp

lemma pow2_mono: "a \<le> b \<Longrightarrow> (2::rat) powi a \<le> 2 powi b"
  by (rule power_int_increasing) simp_all

lemma pow2_less_imp: "(2::rat) powi a < 2 powi b \<Longrightarrow> a < b"
  using pow2_mono[of b a] by (cases "a < b") auto

lemma pow2_add: "(2::rat) powi (a + b) = 2 powi a * 2 powi b"
  by (simp add: power_int_add)

lemma pow2_mult_eq: "a + b = c \<Longrightarrow> (2::rat) powi a * 2 powi b = 2 powi c"
  using power_int_add[of "2::rat" a b] by auto

lemma pow2_diff: "(2::rat) powi (a - b) = 2 powi a / 2 powi b"
  by (simp add: power_int_diff)

lemma pow2_nat: "0 \<le> k \<Longrightarrow> (2::rat) powi k = of_int (2 ^ nat k)"
  by (simp add: power_int_def)

text \<open>Every value \<open>m * 2^u\<close> with a 53-bit \<open>m\<close>, \<open>u \<ge> -1074\<close> and magnitude below \<open>2^1024\<close> is a double.\<close>

lemma round_double_representable:
  assumes r: "r = of_int m * 2 powi u" and m: "\<bar>m\<bar> < 2 ^ 53" and u: "- 1074 \<le> u"
    and big: "\<bar>r\<bar> < 2 powi 1024"
  shows "round_double r = Finite r"
proof (cases "r = 0")
  case True
  then show ?thesis by (simp add: round_double_def)
next
  case False
  define a where "a = \<bar>r\<bar>"
  define e where "e = floor_log2 a"
  define v where "v = max e (- 1022) - 52"
  have a0: "0 < a" using False by (simp add: a_def)
  have am: "a = of_int \<bar>m\<bar> * 2 powi u"
    by (simp add: a_def r abs_mult)
  have "of_int \<bar>m\<bar> < (of_int (2 ^ 53) :: rat)" using m by (simp only: of_int_less_iff)
  then have "a < of_int (2 ^ 53) * 2 powi u"
    unfolding am using pow2_pos[of u] by (simp only: mult_strict_right_mono)
  also have "\<dots> = 2 powi (53 + u)" by (simp add: pow2_add)
  finally have "a < 2 powi (53 + u)" .
  moreover have "2 powi e \<le> a" unfolding e_def by (rule floor_log2_bounds(1)[OF a0])
  ultimately have "(2::rat) powi e < 2 powi (53 + u)" by simp
  then have "e < 53 + u" by (rule pow2_less_imp)
  then have vu: "v \<le> u" using u by (simp add: v_def)
  have "2 powi u = (2::rat) powi (u - v) * 2 powi v"
    by (simp flip: pow2_add)
  then have "a / 2 powi v = of_int \<bar>m\<bar> * 2 powi (u - v)"
    by (simp add: am)
  also have "\<dots> = of_int (\<bar>m\<bar> * 2 ^ nat (u - v))"
    using vu by (simp add: pow2_nat)
  finally have q: "a / 2 powi v = of_int (\<bar>m\<bar> * 2 ^ nat (u - v))" .
  have "of_int (round_half_even (a / 2 powi v)) * 2 powi v = a"
    unfolding q round_half_even_of_int unfolding q[symmetric] by simp
  then show ?thesis
    using False big
    by (simp add: round_double_def Let_def a_def[symmetric] e_def[symmetric] v_def[symmetric])
      (simp add: a_def)
qed

lemma round_double_int:
  assumes "\<bar>n\<bar> < 2 ^ 53"
  shows "round_double (of_int n) = Finite (of_int n)"
proof (rule round_double_representable[where m = n and u = 0])
  show "rat_of_int n = of_int n * 2 powi 0" by simp
  show "\<bar>n\<bar> < 2 ^ 53" by (rule assms)
  show "- 1074 \<le> (0::int)" by simp
  have "\<bar>rat_of_int n\<bar> = of_int \<bar>n\<bar>" by simp
  also have "\<dots> < of_int (2 ^ 53)" using assms by (simp only: of_int_less_iff)
  also have "\<dots> = 2 powi 53" by (simp add: pow2_nat)
  also have "\<dots> \<le> 2 powi 1024" by (rule pow2_mono) simp
  finally show "\<bar>rat_of_int n\<bar> < 2 powi 1024" .
qed

text \<open>The magnitude that \<open>round_double\<close> computes for a positive argument.\<close>

lemma round_double_pos:
  assumes "0 < x"
  defines "u \<equiv> max (floor_log2 x) (- 1022) - 52"
  defines "m \<equiv> round_half_even (x / 2 powi u)"
  shows "round_double x =
           (if 2 powi 1024 \<le> rat_of_int m * 2 powi u then PInf else Finite (rat_of_int m * 2 powi u))"
    and "0 \<le> m" and "m \<le> 2 ^ 53" and "- 1074 \<le> u"
    and "- 1022 \<le> floor_log2 x \<Longrightarrow> 2 ^ 52 \<le> m"
proof -
  show "round_double x =
           (if 2 powi 1024 \<le> rat_of_int m * 2 powi u then PInf else Finite (rat_of_int m * 2 powi u))"
    using assms(1) by (simp add: round_double_def Let_def u_def m_def)
  have "0 \<le> x / 2 powi u" using assms(1) by simp
  then have "of_int 0 \<le> x / 2 powi u" by simp
  then show "0 \<le> m" unfolding m_def by (rule round_half_even_lower)
  show "- 1074 \<le> u" by (simp add: u_def)
  have e52: "floor_log2 x - 52 \<le> u" by (simp add: u_def)
  have "x < 2 powi (floor_log2 x + 1)" by (rule floor_log2_bounds(2)[OF assms(1)])
  also have "\<dots> = 2 powi 53 * 2 powi (floor_log2 x - 52)"
    by (rule pow2_mult_eq[symmetric]) simp
  also have "\<dots> \<le> 2 powi 53 * 2 powi u"
    using pow2_mono[OF e52] by simp
  finally have "x / 2 powi u < 2 powi 53"
    by (simp add: pos_divide_less_eq)
  then have "x / 2 powi u \<le> of_int (2 ^ 53)" by (simp add: pow2_nat)
  then show "m \<le> 2 ^ 53" unfolding m_def by (rule round_half_even_upper)
  show "2 ^ 52 \<le> m" if "- 1022 \<le> floor_log2 x"
  proof -
    have ue: "u = floor_log2 x - 52" using that by (simp add: u_def)
    have "2 powi 52 * 2 powi u = (2::rat) powi floor_log2 x"
      by (rule pow2_mult_eq) (simp add: ue)
    also have "\<dots> \<le> x" by (rule floor_log2_bounds(1)[OF assms(1)])
    finally have "2 powi 52 \<le> x / 2 powi u"
      by (simp add: pos_le_divide_eq)
    then have "of_int (2 ^ 52) \<le> x / 2 powi u" by (simp add: pow2_nat)
    then show ?thesis unfolding m_def by (rule round_half_even_lower)
  qed
qed

lemma round_double_overflow:
  assumes "2 powi 1024 \<le> x"
  shows "round_double x = PInf"
proof -
  have x0: "0 < x" using assms pow2_pos[of 1024] by linarith
  define u where "u = max (floor_log2 x) (- 1022) - 52"
  define m where "m = round_half_even (x / 2 powi u)"
  note P = round_double_pos[OF x0, folded u_def m_def]
  have "(2::rat) powi 1024 < 2 powi (floor_log2 x + 1)"
    using assms floor_log2_bounds(2)[OF x0] by simp
  then have e: "1024 \<le> floor_log2 x" using pow2_less_imp by fastforce
  then have ue: "u = floor_log2 x - 52" by (simp add: u_def)
  have "2 ^ 52 \<le> m" using P(5) e by simp
  then have "(of_int (2 ^ 52) :: rat) \<le> of_int m" by (simp only: of_int_le_iff)
  then have "rat_of_int (2 ^ 52) * 2 powi u \<le> rat_of_int m * 2 powi u"
    using pow2_pos[of u] by (intro mult_right_mono) simp_all
  moreover have "2 powi 52 * 2 powi u = (2::rat) powi floor_log2 x"
    by (rule pow2_mult_eq) (simp add: ue)
  then have "rat_of_int (2 ^ 52) * 2 powi u = (2::rat) powi floor_log2 x"
    by (simp add: pow2_nat)
  moreover have "(2::rat) powi 1024 \<le> 2 powi floor_log2 x" using e by (rule pow2_mono)
  ultimately have "2 powi 1024 \<le> rat_of_int m * 2 powi u" by linarith
  then show ?thesis using P(1) by simp
qed

lemma round_double_minus:
  "round_double (- x) =
     (case round_double x of Finite p \<Rightarrow> Finite (- p) | PInf \<Rightarrow> NInf | NInf \<Rightarrow> PInf | NaN \<Rightarrow> NaN)"
  by (cases "x = 0"; cases "0 < x") (simp_all add: round_double_def Let_def)

lemma round_double_pos_result:
  assumes "0 < x" and "round_double x = Finite p"
  shows "0 \<le> p" and "round_double p = Finite p"
proof -
  define u where "u = max (floor_log2 x) (- 1022) - 52"
  define m where "m = round_half_even (x / 2 powi u)"
  note P = round_double_pos[OF assms(1), folded u_def m_def]
  have p: "p = of_int m * 2 powi u" and small: "p < 2 powi 1024"
    using P(1) assms(2) by (simp_all split: if_splits)
  show "0 \<le> p" using P(2) by (simp add: p)
  then have ap: "\<bar>p\<bar> < 2 powi 1024" using small by simp
  show "round_double p = Finite p"
  proof (cases "m = 2 ^ 53")
    case False
    then have mb: "\<bar>m\<bar> < 2 ^ 53" using P(2) P(3) by simp
    show ?thesis by (rule round_double_representable[OF p mb P(4) ap])
  next
    case True
    have p2: "p = rat_of_int (2 ^ 52) * 2 powi (u + 1)"
      by (simp add: p True power_int_add)
    have mb: "\<bar>2 ^ 52 :: int\<bar> < 2 ^ 53" by simp
    have ub: "- 1074 \<le> u + 1" using P(4) by simp
    show ?thesis by (rule round_double_representable[OF p2 mb ub ap])
  qed
qed

lemma round_double_idem:
  assumes "round_double x = Finite p"
  shows "round_double p = Finite p"
proof -
  consider "x = 0" | "0 < x" | "x < 0" by linarith
  then show ?thesis
  proof cases
    case 1
    then have "p = 0" using assms by (simp add: round_double_def)
    then show ?thesis by (simp add: round_double_def)
  next
    case 2
    then show ?thesis using assms by (rule round_double_pos_result(2))
  next
    case 3
    then have pos: "0 < - x" by simp
    have "round_double (- x) = Finite (- p)"
      using assms by (simp add: round_double_minus)
    from round_double_pos_result(2)[OF pos this]
    have "round_double (- p) = Finite (- p)" .
    then show ?thesis
      by (simp add: round_double_minus split: py_float.splits)
  qed
qed

subsection \<open>Decimal digits\<close>

lemma split_colon_no_colon: "CHR '':'' \<notin> set a \<Longrightarrow> split_colon a = [a]"
  by (induction a) auto

lemma split_colon_append:
  "CHR '':'' \<notin> set a \<Longrightarrow> split_colon (a @ CHR '':'' # b) = a # split_colon b"
  by (induction a) auto

lemma digit_char_props:
  assumes "d < 10"
  shows "is_digit (digit_char d) \<and> digit_val (digit_char d) = d"
proof -
  have "d = 0 \<or> d = 1 \<or> d = 2 \<or> d = 3 \<or> d = 4 \<or> d = 5 \<or> d = 6 \<or> d = 7 \<or> d = 8 \<or> d = 9"
    using assms by presburger
  then show ?thesis
    by (elim disjE) (simp_all add: digit_char_def is_digit_def digit_val_def)
qed

lemma digits_value_snoc: "digits_value (ds @ [c]) = 10 * digits_value ds + digit_val c"
  by (simp add: digits_value_def)


lemma dec_small: "n < 10 \<Longrightarrow> dec n = [digit_char n]"
  by (subst dec.simps) simp

lemma dec_big: "\<not> n < 10 \<Longrightarrow> dec n = dec (n div 10) @ [digit_char (n mod 10)]"
  by (subst dec.simps) simp

lemma dec_digits: "list_all is_digit (dec n)"
proof (induction n rule: dec.induct)
  case (1 n)
  show ?case
  proof (cases "n < 10")
    case True
    then show ?thesis using digit_char_props[of n] by (simp add: dec_small)
  next
    case False
    have "n mod 10 < 10" by simp
    then have "is_digit (digit_char (n mod 10))" using digit_char_props by blast
    then show ?thesis using False 1 by (simp add: dec_big)
  qed
qed

lemma dec_value: "digits_value (dec n) = n"
proof (induction n rule: dec.induct)
  case (1 n)
  show ?case
  proof (cases "n < 10")
    case True
    then show ?thesis
      using digit_char_props[of n] by (simp add: dec_small digits_value_def)
  next
    case False
    have "n mod 10 < 10" by simp
    then have "digit_val (digit_char (n mod 10)) = n mod 10" using digit_char_props by blast
    then show ?thesis
      using 1 False by (simp add: dec_big digits_value_snoc)
  qed
qed

lemma dec_length_pos: "0 < length (dec n)"
  by (cases "n < 10") (simp_all add: dec_small dec_big)

lemma dec_length_two: "length (dec n) \<le> 2 \<longleftrightarrow> n < 100"
proof (cases "n < 10")
  case True
  then show ?thesis by (simp add: dec_small)
next
  case False
  show ?thesis
  proof (cases "n < 100")
    case True
    then have "n div 10 < 10" by simp
    then show ?thesis using False True by (simp add: dec_big[of n] dec_small)
  next
    case F: False
    then have "\<not> n div 10 < 10" by simp
    then show ?thesis using False F dec_length_pos[of "n div 10 div 10"]
      by (simp add: dec_big[of n] dec_big[of "n div 10"])
  qed
qed

lemma digits_value_zeros: "digits_value (replicate k CHR ''0'' @ ds) = digits_value ds"
proof -
  have d0: "digit_val CHR ''0'' = 0" by (simp add: digit_val_def)
  have "foldl (\<lambda>a c. 10 * a + digit_val c) 0 (replicate k CHR ''0'') = 0"
    by (induction k) (simp_all add: d0)
  then show ?thesis by (simp add: digits_value_def)
qed

lemma fmt_02d_nonneg:
  assumes "0 \<le> n"
  shows "list_all is_digit (fmt_02d n)" and "digits_value (fmt_02d n) = nat n"
    and "2 \<le> length (fmt_02d n)" and "length (fmt_02d n) = 2 \<longleftrightarrow> n < 100"
proof -
  have f: "fmt_02d n = replicate (2 - length (dec (nat n))) CHR ''0'' @ dec (nat n)"
    using assms by (simp add: fmt_02d_def Let_def)
  have z: "is_digit CHR ''0''" by (simp add: is_digit_def)
  show "list_all is_digit (fmt_02d n)"
    using dec_digits[of "nat n"] z by (auto simp: f list_all_iff)
  show "digits_value (fmt_02d n) = nat n"
    by (simp only: f digits_value_zeros dec_value)
  show "2 \<le> length (fmt_02d n)" by (simp add: f)
  have "length (fmt_02d n) = 2 \<longleftrightarrow> length (dec (nat n)) \<le> 2"
    using dec_length_pos[of "nat n"] by (simp add: f) linarith
  also have "\<dots> \<longleftrightarrow> nat n < 100" by (rule dec_length_two)
  also have "\<dots> \<longleftrightarrow> n < 100" using assms by linarith
  finally show "length (fmt_02d n) = 2 \<longleftrightarrow> n < 100" .
qed

lemma digits_no_colon:
  assumes "list_all is_digit ds"
  shows "CHR '':'' \<notin> set ds"
proof
  assume "CHR '':'' \<in> set ds"
  then have "is_digit CHR '':''" using assms by (simp add: list_all_iff)
  then show False by (simp add: is_digit_def)
qed

subsection \<open>\<open>float\<close> on strings\<close>

lemma float_of_string_empty: "float_of_string [] = Inl ValueError"
  by (simp add: float_of_string_def strip_ws_def parse_float_literal_def parse_sign_def)

lemma parse_float_literal_Special:
  "parse_float_literal t = Some (Special f) \<Longrightarrow> f = PInf \<or> f = NInf \<or> f = NaN"
  by (auto simp: parse_float_literal_def Let_def split: prod.splits if_splits option.splits list.splits)

lemma float_of_string_error: "float_of_string s = Inl e \<Longrightarrow> e = ValueError"
  by (auto simp: float_of_string_def split: option.splits literal.splits)

lemma float_of_string_double:
  assumes "float_of_string s = Inr (Finite v)"
  shows "round_double v = Finite v"
proof -
  from assms obtain t l where t: "parse_float_literal t = Some l"
    and l: "(case l of Special f \<Rightarrow> Inr f
              | Decimal neg d k \<Rightarrow> Inr (round_double ((if neg then - 1 else 1) * of_nat d * 10 powi k)))
            = (Inr (Finite v) :: py_error + py_float)"
    by (auto simp: float_of_string_def split: option.splits)
  show ?thesis
  proof (cases l)
    case (Special f)
    then show ?thesis using parse_float_literal_Special[of t f] t l by auto
  next
    case (Decimal neg d k)
    then have "round_double ((if neg then - 1 else 1) * of_nat d * 10 powi k) = Finite v"
      using l by simp
    then show ?thesis by (rule round_double_idem)
  qed
qed

lemma round_double_not_NaN: "round_double x \<noteq> NaN"
  by (simp add: round_double_def Let_def)

lemma round_double_pos_cases:
  assumes "0 < x"
  shows "round_double x = PInf \<or> (\<exists>p. round_double x = Finite p \<and> 0 \<le> p)"
proof (cases "round_double x")
  case (Finite p)
  then show ?thesis using round_double_pos_result(1)[OF assms Finite] by simp
next
  case NInf
  then show ?thesis using assms by (simp add: round_double_def Let_def split: if_splits)
qed (simp_all add: round_double_not_NaN)

lemmas parser_defs =
  float_of_string_def strip_ws_def is_space_def is_digit_def parse_float_literal_def
  parse_sign_def ascii_lower_def parse_exponent_def digits_value_def digit_val_def

lemma float_of_string_5: "float_of_string ''5'' = Inr (Finite 5)"
  using round_double_int[of 5] by (simp add: parser_defs)

lemma float_of_string_5_point: "float_of_string ''5.'' = Inr (Finite 5)"
  using round_double_int[of 5] by (simp add: parser_defs)

lemma float_of_string_minus_3: "float_of_string ''-3'' = Inr (Finite (- 3))"
  using round_double_int[of "- 3"] by (simp add: parser_defs)

lemma float_of_string_nan: "float_of_string ''nan'' = Inr NaN"
  by (simp add: parser_defs)

text \<open>A no-break space before the digits and a next-line character after them are stripped.\<close>

lemma float_of_string_padded:
  "float_of_string ([CHR 0xA0] @ ''5'' @ [CHR 0x85]) = Inr (Finite 5)"
  using round_double_int[of 5] by (simp add: parser_defs)

lemma round_double_nines:
  "round_double
     9999999999999999999999999999999999999999999999999999999999999999999999999999999999999999999999999999999999999999999999999999999999999999999999999999999999999999999999999999999999999999999999999999999999999999999999999999999999999999999999999999999999999999999999999999999999999999999999999999999999999999999999 = PInf"
  by (rule round_double_overflow) simp

lemma float_of_string_nines: "float_of_string many_nines = Inr PInf"
  by (simp add: many_nines_def parser_defs round_double_nines)

subsection \<open>The display at given times\<close>

lemma format_time_0: "format_time (s\<lparr>remaining := 0\<rparr>) = ''00:00:00''"
  by (simp add: format_time_def fmt_02d_def dec_small digit_char_def)

lemma format_time_10: "format_time (s\<lparr>remaining := 10\<rparr>) = ''00:00:10''"
  by (simp add: format_time_def fmt_02d_def dec_small dec_big digit_char_def)

lemma format_time_300: "format_time (s\<lparr>remaining := 300\<rparr>) = ''00:05:00''"
  by (simp add: format_time_def fmt_02d_def dec_small digit_char_def)


subsection \<open>The alarm loop\<close>

lemma alarm_loop_default_ok:
  "alarm_loop player_ok default_config 0 (nat (repetitions default_config)) =
     [Afplay ''4'' ''/System/Library/Sounds/Ping.aiff'', Sleep,
      Afplay ''4'' ''/System/Library/Sounds/Ping.aiff'', Sleep,
      Afplay ''4'' ''/System/Library/Sounds/Ping.aiff'', Sleep]"
  by (simp add: default_config_def player_ok_def numeral_3_eq_3)

lemma alarm_loop_default_missing:
  "alarm_loop player_missing default_config 0 (nat (repetitions default_config)) = [PrintError]"
  by (simp add: default_config_def player_missing_def numeral_3_eq_3)

lemma alarm_loop_prefix:
  "(\<forall>j<k. runs (i + j)) \<Longrightarrow> k \<le> n \<Longrightarrow>
     alarm_loop runs cfg i n =
       concat (replicate k [Afplay (volume cfg) (sound_file cfg), Sleep])
       @ alarm_loop runs cfg (i + k) (n - k)"
proof (induction k arbitrary: i n)
  case 0
  then show ?case by simp
next
  case (Suc k)
  then obtain n' where n: "n = Suc n'" by (cases n) auto
  have r0: "runs i" using Suc.prems(1) by force
  have "\<forall>j<k. runs (Suc i + j)" using Suc.prems(1) by force
  moreover have "k \<le> n'" using Suc.prems(2) n by simp
  ultimately have "alarm_loop runs cfg (Suc i) n' =
       concat (replicate k [Afplay (volume cfg) (sound_file cfg), Sleep])
       @ alarm_loop runs cfg (Suc i + k) (n' - k)"
    by (rule Suc.IH)
  then show ?case using r0 by (simp add: n)
qed

lemma times_played_append: "times_played (a @ b) = times_played a + times_played b"
  by (simp add: times_played_def)

lemma times_played_rounds:
  "times_played (concat (replicate k [Afplay v f, Sleep])) = k"
  by (induction k) (simp_all add: times_played_def)

lemma times_played_all_run:
  assumes "\<forall>i<n. runs i"
  shows "times_played (alarm_loop runs cfg 0 n) = n"
  using alarm_loop_prefix[of n runs 0 n cfg] assms
  by (simp add: times_played_append times_played_rounds)

lemma times_played_first_failure:
  assumes "k < n" and "\<not> runs k" and "\<forall>i<k. runs i"
  shows "alarm_loop runs cfg 0 n =
           concat (replicate k [Afplay (volume cfg) (sound_file cfg), Sleep]) @ [PrintError]"
    and "times_played (alarm_loop runs cfg 0 n) = k"
proof -
  obtain d where d: "n - k = Suc d" using assms(1) by (cases "n - k") auto
  have "alarm_loop runs cfg 0 n =
       concat (replicate k [Afplay (volume cfg) (sound_file cfg), Sleep])
       @ alarm_loop runs cfg (0 + k) (n - k)"
    using assms by (intro alarm_loop_prefix) auto
  then show a: "alarm_loop runs cfg 0 n =
           concat (replicate k [Afplay (volume cfg) (sound_file cfg), Sleep]) @ [PrintError]"
    using assms(2) by (simp add: d)
  show "times_played (alarm_loop runs cfg 0 n) = k"
    unfolding a by (simp add: times_played_append times_played_rounds) (simp add: times_played_def)
qed


subsection \<open>The countdown and the event loop\<close>

lemma start_countdown_result:
  "start_countdown runs self =
     (if 0 < remaining self then
        self\<lparr>state := RUNNING, pausar_enabled := True, detener_enabled := True,
             iniciar_enabled := False, time_label := format_time self,
             remaining := remaining self - 1,
             after_calls := after_calls self @ [(1000, UpdateTimer)]\<rparr>
      else
        self\<lparr>pausar_enabled := True, detener_enabled := True,
             iniciar_enabled := False, time_label := format_time self,
             effects := effects self @ alarm_loop runs (config self) 0 (nat (repetitions (config self))),
             state := STOPPED,
             after_calls := after_calls self @ [(1000, DestroyRoot)]\<rparr>)"
  by (simp add: start_countdown_def update_timer_def update_display_def play_alarm_def
      format_time_def)

lemma start_countdown_error_labels:
  "error_labels (start_countdown runs self) = error_labels self"
  by (simp add: start_countdown_result)

lemma dispatch_stopped:
  assumes "state self = STOPPED"
  shows "state (dispatch runs self e) = STOPPED \<and> effects (dispatch runs self e) = effects self"
  using assms
  by (cases e) (simp_all add: update_timer_def pause_timer_def stop_timer_def update_display_def)

lemma mainloop_stopped:
  "state self = STOPPED \<Longrightarrow>
     state (mainloop runs evs self) = STOPPED \<and> effects (mainloop runs evs self) = effects self"
proof (induction evs arbitrary: self)
  case Nil
  then show ?case by (simp add: mainloop_def)
next
  case (Cons e evs)
  have d: "state (dispatch runs self e) = STOPPED" "effects (dispatch runs self e) = effects self"
    using dispatch_stopped[OF Cons.prems] by simp_all
  have "mainloop runs (e # evs) self = mainloop runs evs (dispatch runs self e)"
    by (simp add: mainloop_def)
  then show ?case using Cons.IH[OF d(1)] d(2) by simp
qed


subsection \<open>The outcomes of a confirmation\<close>

lemma process_time_input_cases:
  "process_time_input runs key input_value self =
     (if input_value = [] then Inr self
      else case float_of_string input_value of
        Inl e \<Rightarrow> Inr (show_error_message error_text self)
      | Inr NaN \<Rightarrow> Inr (show_error_message error_text self)
      | Inr NInf \<Rightarrow> Inr (show_error_message error_text self)
      | Inr PInf \<Rightarrow> Inl OverflowError
      | Inr (Finite v) \<Rightarrow>
          if v \<le> 0 then Inr (show_error_message error_text self)
          else (case round_double (v * (if key = ''d'' then 60 else 1)) of
                  Finite p \<Rightarrow>
                    Inr (start_countdown runs (self\<lparr>remaining := \<lfloor>p\<rfloor>, dialog_open := False\<rparr>))
                | _ \<Rightarrow> Inl OverflowError))"
proof (cases "input_value = []")
  case True
  then show ?thesis by (simp add: process_time_input_def)
next
  case ne: False
  show ?thesis
  proof (cases "float_of_string input_value")
    case (Inl e)
    then have "e = ValueError" by (rule float_of_string_error)
    then show ?thesis using ne Inl by (simp add: process_time_input_def except_ValueError_def)
  next
    case (Inr x)
    show ?thesis
    proof (cases x)
      case (Finite v)
      show ?thesis
      proof (cases "v \<le> 0")
        case True
        then show ?thesis
          using ne Inr Finite by (simp add: process_time_input_def except_ValueError_def)
      next
        case False
        then have pos: "0 < v * (if key = ''d'' then 60 else 1)" by simp
        from round_double_pos_cases[OF pos]
        show ?thesis
        proof
          assume "round_double (v * (if key = ''d'' then 60 else 1)) = PInf"
          then show ?thesis
            using ne Inr Finite False
            by (simp add: process_time_input_def except_ValueError_def split: if_splits)
        next
          assume "\<exists>p. round_double (v * (if key = ''d'' then 60 else 1)) = Finite p \<and> 0 \<le> p"
          then obtain p where "round_double (v * (if key = ''d'' then 60 else 1)) = Finite p"
            and "0 \<le> p" by blast
          then show ?thesis
            using ne Inr Finite False
            by (simp add: process_time_input_def except_ValueError_def split: if_splits)
        qed
      qed
    qed (use ne Inr in \<open>simp_all add: process_time_input_def except_ValueError_def\<close>)
  qed
qed


section \<open>Properties\<close>

text \<open>
  C1, as amended. Let the text of the entry convert to a finite float \<open>v > 0\<close> and let
  the float product of \<open>v\<close> with 60 (key \<open>d\<close>, minutes) or with 1 (any other key,
  seconds) be the finite float \<open>p\<close>; for seconds \<open>p = v\<close>, for minutes \<open>p\<close> is \<open>v * 60\<close>
  rounded to a double. Then the confirmation assigns \<open>floor p\<close> to Remaining, closes the
  dialog and starts the countdown. The countdown runs its first tick at once: when the
  handler returns, the display shows \<open>floor p\<close> and Remaining is \<open>floor p - 1\<close>, or 0
  when \<open>floor p\<close> is 0.
\<close>

theorem confirm_starts_countdown:
  assumes "float_of_string input_value = Inr (Finite v)" and "0 < v"
    and "float_mul_int (Finite v) (if key = ''d'' then 60 else 1) = Finite p"
  shows "process_time_input runs key input_value self =
           Inr (start_countdown runs (self\<lparr>remaining := \<lfloor>p\<rfloor>, dialog_open := False\<rparr>))
         \<and> (key = ''d'' \<longrightarrow> round_double (v * 60) = Finite p) \<and> (key \<noteq> ''d'' \<longrightarrow> p = v)
         \<and> 0 \<le> \<lfloor>p\<rfloor>
         \<and> time_label (start_countdown runs (self\<lparr>remaining := \<lfloor>p\<rfloor>, dialog_open := False\<rparr>))
             = format_time (self\<lparr>remaining := \<lfloor>p\<rfloor>\<rparr>)
         \<and> remaining (start_countdown runs (self\<lparr>remaining := \<lfloor>p\<rfloor>, dialog_open := False\<rparr>))
             = (if 0 < \<lfloor>p\<rfloor> then \<lfloor>p\<rfloor> - 1 else 0)"
proof -
  have ne: "input_value \<noteq> []"
    using assms(1) float_of_string_empty by auto
  have dbl: "round_double v = Finite v"
    using assms(1) by (rule float_of_string_double)
  have prod: "round_double (v * (if key = ''d'' then 60 else 1)) = Finite p"
    using assms(3) by (simp split: if_splits)
  have pos: "0 < v * (if key = ''d'' then 60 else 1)"
    using assms(2) by simp
  have p0: "0 \<le> p"
    using round_double_pos_result(1)[OF pos prod] .
  have "py_int (float_mul_int (Finite v) (if key = ''d'' then 60 else 1)) = Inr \<lfloor>p\<rfloor>"
    using p0 by (simp only: assms(3) py_int.simps if_True)
  then have 1: "process_time_input runs key input_value self =
           Inr (start_countdown runs (self\<lparr>remaining := \<lfloor>p\<rfloor>, dialog_open := False\<rparr>))"
    using ne assms(1) assms(2) by (simp add: process_time_input_def)
  have 2: "key = ''d'' \<longrightarrow> round_double (v * 60) = Finite p"
    using prod by (cases "key = ''d''") simp_all
  have 3: "key \<noteq> ''d'' \<longrightarrow> p = v"
    using prod dbl by (cases "key = ''d''") simp_all
  have 4: "0 \<le> \<lfloor>p\<rfloor>" using p0 by simp
  have 5: "time_label (start_countdown runs (self\<lparr>remaining := \<lfloor>p\<rfloor>, dialog_open := False\<rparr>))
             = format_time (self\<lparr>remaining := \<lfloor>p\<rfloor>\<rparr>)"
    by (simp add: start_countdown_result format_time_def)
  have 6: "remaining (start_countdown runs (self\<lparr>remaining := \<lfloor>p\<rfloor>, dialog_open := False\<rparr>))
             = (if 0 < \<lfloor>p\<rfloor> then \<lfloor>p\<rfloor> - 1 else 0)"
  proof (cases "0 < \<lfloor>p\<rfloor>")
    case True
    then show ?thesis by (simp only: start_countdown_result) simp
  next
    case False
    then have "\<lfloor>p\<rfloor> = 0" using 4 by linarith
    then show ?thesis by (simp only: start_countdown_result) simp
  qed
  from 1 2 3 4 5 6 show ?thesis by blast
qed

text \<open>The entry \<open>5\<close> confirmed as minutes: 300 is assigned and displayed, 299 remains.\<close>

theorem confirm_starts_countdown_witness:
  "float_of_string ''5'' = Inr (Finite 5) \<and> (0::rat) < 5
   \<and> float_mul_int (Finite 5) (if ''d'' = ''d'' then 60 else 1) = Finite 300
   \<and> process_time_input player_ok ''d'' ''5'' (init_timer default_config) =
        Inr (start_countdown player_ok
              ((init_timer default_config)\<lparr>remaining := 300, dialog_open := False\<rparr>))
   \<and> time_label (start_countdown player_ok
              ((init_timer default_config)\<lparr>remaining := 300, dialog_open := False\<rparr>)) = ''00:05:00''
   \<and> remaining (start_countdown player_ok
              ((init_timer default_config)\<lparr>remaining := 300, dialog_open := False\<rparr>)) = 299"
proof -
  have h1: "float_of_string ''5'' = Inr (Finite 5)" by (rule float_of_string_5)
  have h2: "(0::rat) < 5" by simp
  have h3: "float_mul_int (Finite 5) (if ''d'' = ''d'' then 60 else 1) = Finite 300"
    using round_double_int[of 300] by simp
  from confirm_starts_countdown[OF h1 h2 h3, of player_ok "init_timer default_config"]
  show ?thesis using h1 h3 by (simp add: format_time_300)
qed

text \<open>
  As stated, C1 has Remaining at 300 after the entry \<open>5\<close> is confirmed with the key
  \<open>D\<close>, and at \<open>floor v\<close> for every text that converts to a float \<open>v > 0\<close>. The handler
  returns with Remaining at 299; and 310 digits convert to the float infinity, which is
  \<open>> 0\<close>, and their confirmation raises \<open>OverflowError\<close> without assigning anything.
\<close>

theorem confirm_sets_remaining_counterexample:
  "map_sum id (remaining \<circ> snd) (handle_key player_ok ''D'' ''5'' (init_timer default_config))
     = Inr 299
   \<and> float_of_string many_nines = Inr PInf \<and> \<not> float_le_zero PInf
   \<and> handle_key player_ok ''F'' many_nines (init_timer default_config) = Inl OverflowError"
proof -
  have r300: "round_double 300 = Finite 300"
    using round_double_int[of 300] by simp
  have "process_time_input player_ok ''d'' ''5'' (init_timer default_config) =
        Inr (start_countdown player_ok
              ((init_timer default_config)\<lparr>remaining := 300, dialog_open := False\<rparr>))"
    by (simp add: process_time_input_def float_of_string_5 r300)
  then have 1: "map_sum id (remaining \<circ> snd)
       (handle_key player_ok ''D'' ''5'' (init_timer default_config)) = Inr 299"
    by (simp add: handle_key_def lower_char_def start_countdown_result)
  have ne: "many_nines \<noteq> []" by (simp add: many_nines_def)
  have "process_time_input player_ok ''f'' many_nines (init_timer default_config)
          = Inl OverflowError"
    using ne by (simp add: process_time_input_cases float_of_string_nines)
  then have 2: "handle_key player_ok ''F'' many_nines (init_timer default_config)
          = Inl OverflowError"
    by (simp add: handle_key_def lower_char_def)
  from 1 2 float_of_string_nines show ?thesis by simp
qed

text \<open>
  A float that is infinite, or whose product with 60 is, makes \<open>int\<close> raise
  \<open>OverflowError\<close>, which \<open>except ValueError\<close> does not catch: the exception leaves the
  handler, whatever the unit, and nothing is assigned.
\<close>

lemma overflow_leaves_handler:
  "process_time_input runs key many_nines self = Inl OverflowError"
proof -
  have "many_nines \<noteq> []" by (simp add: many_nines_def)
  then show ?thesis by (simp add: process_time_input_cases float_of_string_nines)
qed

text \<open>
  C2. One call of \<open>update_timer\<close>: in state RUNNING with Remaining \<open>> 0\<close> it displays
  Remaining, decrements it by 1 and registers the next tick; in state RUNNING with
  Remaining \<open>= 0\<close> it displays Remaining, plays the alarm, sets the state to STOPPED and
  registers the destruction of the window; in any other state it changes nothing.
\<close>

theorem update_timer_tick:
  "(state self = RUNNING \<and> 0 < remaining self \<longrightarrow>
      update_timer runs self =
        self\<lparr>time_label := format_time self, remaining := remaining self - 1,
             after_calls := after_calls self @ [(1000, UpdateTimer)]\<rparr>)
   \<and> (state self = RUNNING \<and> remaining self = 0 \<longrightarrow>
      update_timer runs self =
        self\<lparr>time_label := format_time self,
             effects := effects self @ alarm_loop runs (config self) 0 (nat (repetitions (config self))),
             state := STOPPED,
             after_calls := after_calls self @ [(1000, DestroyRoot)]\<rparr>)
   \<and> (state self \<noteq> RUNNING \<longrightarrow> update_timer runs self = self)"
  by (simp add: update_timer_def update_display_def play_alarm_def)

theorem update_timer_tick_witness:
  "(state (running_at 10) = RUNNING \<and> 0 < remaining (running_at 10)
      \<and> update_timer player_ok (running_at 10) =
          (running_at 10)\<lparr>time_label := ''00:00:10'', remaining := 9,
             after_calls := [(1000, UpdateTimer)]\<rparr>)
   \<and> (state (running_at 0) = RUNNING \<and> remaining (running_at 0) = 0
      \<and> update_timer player_ok (running_at 0) =
          (running_at 0)\<lparr>time_label := ''00:00:00'',
             effects := [Afplay ''4'' ''/System/Library/Sounds/Ping.aiff'', Sleep,
                         Afplay ''4'' ''/System/Library/Sounds/Ping.aiff'', Sleep,
                         Afplay ''4'' ''/System/Library/Sounds/Ping.aiff'', Sleep],
             state := STOPPED, after_calls := [(1000, DestroyRoot)]\<rparr>)
   \<and> (state (init_timer default_config) \<noteq> RUNNING
      \<and> update_timer player_ok (init_timer default_config) = init_timer default_config)"
proof -
  have a: "state (running_at 10) = RUNNING \<and> 0 < remaining (running_at 10)"
    by (simp add: running_at_def init_timer_def)
  have b: "state (running_at 0) = RUNNING \<and> remaining (running_at 0) = 0"
    by (simp add: running_at_def init_timer_def)
  have c: "state (init_timer default_config) \<noteq> RUNNING"
    by (simp add: init_timer_def)
  have fa: "format_time (running_at 10) = ''00:00:10''"
    unfolding running_at_def by (rule format_time_10)
  have fb: "format_time (running_at 0) = ''00:00:00''"
    unfolding running_at_def by (rule format_time_0)
  have ea: "after_calls (running_at 10) = []" "after_calls (running_at 0) = []"
    "effects (running_at 0) = []" "config (running_at 0) = default_config"
    "remaining (running_at 10) = 10"
    by (simp_all add: running_at_def init_timer_def)
  show ?thesis
    using update_timer_tick[of "running_at 10" player_ok]
      update_timer_tick[of "running_at 0" player_ok]
      update_timer_tick[of "init_timer default_config" player_ok] a b c
    by (simp add: fa fb ea alarm_loop_default_ok)
qed

text \<open>
  C3, as amended. From state RUNNING with Remaining \<open>R\<close>, \<open>pause_timer\<close> gives state PAUSED
  and leaves Remaining at \<open>R\<close>; a tick that comes due while paused changes nothing. A
  second \<open>pause_timer\<close> resumes by running one tick at once: it is \<open>update_timer\<close> on the
  running object, so for \<open>R > 0\<close> it displays \<open>R\<close> and leaves Remaining at \<open>R - 1\<close> in
  state RUNNING.
\<close>

theorem pause_then_resume:
  assumes "state self = RUNNING"
  shows "state (pause_timer runs self) = PAUSED
         \<and> remaining (pause_timer runs self) = remaining self
         \<and> update_timer runs (pause_timer runs self) = pause_timer runs self
         \<and> pause_timer runs (pause_timer runs self) =
               update_timer runs (self\<lparr>state := RUNNING, pausar_text := ''Pausar''\<rparr>)
         \<and> (0 < remaining self \<longrightarrow>
               time_label (pause_timer runs (pause_timer runs self)) = format_time self
             \<and> remaining (pause_timer runs (pause_timer runs self)) = remaining self - 1
             \<and> state (pause_timer runs (pause_timer runs self)) = RUNNING)"
  using assms
  by (simp add: pause_timer_def update_timer_def Let_def update_display_def format_time_def)

theorem pause_then_resume_witness:
  "state (running_at 10) = RUNNING
   \<and> state (pause_timer player_ok (running_at 10)) = PAUSED
   \<and> remaining (pause_timer player_ok (running_at 10)) = 10
   \<and> 0 < remaining (running_at 10)
   \<and> time_label (pause_timer player_ok (pause_timer player_ok (running_at 10))) = ''00:00:10''
   \<and> remaining (pause_timer player_ok (pause_timer player_ok (running_at 10))) = 9
   \<and> state (pause_timer player_ok (pause_timer player_ok (running_at 10))) = RUNNING"
proof -
  have h: "state (running_at 10) = RUNNING" by (simp add: running_at_def init_timer_def)
  have r: "remaining (running_at 10) = 10" by (simp add: running_at_def init_timer_def)
  have f: "format_time (running_at 10) = ''00:00:10''"
    unfolding running_at_def by (rule format_time_10)
  have p: "0 < remaining (running_at 10)" by (simp add: r)
  from pause_then_resume[OF h, of player_ok] p
  have "state (pause_timer player_ok (running_at 10)) = PAUSED
      \<and> remaining (pause_timer player_ok (running_at 10)) = remaining (running_at 10)
      \<and> time_label (pause_timer player_ok (pause_timer player_ok (running_at 10)))
          = format_time (running_at 10)
      \<and> remaining (pause_timer player_ok (pause_timer player_ok (running_at 10)))
          = remaining (running_at 10) - 1
      \<and> state (pause_timer player_ok (pause_timer player_ok (running_at 10))) = RUNNING"
    by blast
  then show ?thesis using h p by (simp add: r f)
qed

text \<open>
  As stated, C3 has Remaining at \<open>R\<close> again after pausing and resuming. From Remaining 10
  the pair leaves 9.
\<close>

theorem pause_resume_counterexample:
  "state (running_at 10) = RUNNING
   \<and> remaining (pause_timer player_ok (pause_timer player_ok (running_at 10))) = 9"
  by (simp add: running_at_def init_timer_def pause_timer_def update_timer_def update_display_def)

text \<open>
  C4, as amended. A confirmation packs the error label into the dialog if and only if the
  text of the entry is not empty and either does not convert to a float, or converts to
  a value \<open>\<le> 0\<close>, or converts to NaN. The empty text is ignored without a message.
\<close>

theorem error_message_iff:
  "map_sum id error_labels (process_time_input runs key input_value self)
     = Inr (error_labels self @ [error_text])
   \<longleftrightarrow> input_value \<noteq> []
       \<and> (case float_of_string input_value of
             Inl e \<Rightarrow> True
           | Inr x \<Rightarrow> float_le_zero x \<or> x = NaN)"
  by (simp add: process_time_input_cases show_error_message_def start_countdown_error_labels
      split: sum.splits py_float.splits)

theorem error_message_iff_witness:
  "(map_sum id error_labels (process_time_input player_ok ''f'' ''-3'' (init_timer default_config))
     = Inr (error_labels (init_timer default_config) @ [error_text]))
   \<and> ''-3'' \<noteq> []
   \<and> float_of_string ''-3'' = Inr (Finite (- 3)) \<and> float_le_zero (Finite (- 3))
   \<and> map_sum id error_labels (process_time_input player_ok ''f'' ''5'' (init_timer default_config))
     \<noteq> Inr (error_labels (init_timer default_config) @ [error_text])"
  using error_message_iff[of player_ok "''f''" "''-3''" "init_timer default_config"]
    error_message_iff[of player_ok "''f''" "''5''" "init_timer default_config"]
  by (simp add: float_of_string_minus_3 float_of_string_5)

text \<open>
  As stated, C4 has a message for the empty text, which does not convert to a float, and
  none for a text that converts to a value that is not \<open>\<le> 0\<close>. The empty text gets
  no message, and \<open>nan\<close> gets one.
\<close>

theorem error_message_counterexample:
  "float_of_string [] = Inl ValueError
   \<and> process_time_input player_ok ''f'' [] (init_timer default_config)
       = Inr (init_timer default_config)
   \<and> float_of_string ''nan'' = Inr NaN \<and> \<not> float_le_zero NaN
   \<and> process_time_input player_ok ''f'' ''nan'' (init_timer default_config)
       = Inr (show_error_message error_text (init_timer default_config))"
  by (simp add: float_of_string_empty float_of_string_nan process_time_input_cases)

text \<open>
  C5. When the text of the entry does not convert to a float, or converts to a value
  \<open>\<le> 0\<close>, the confirmation is rejected and the engine is as before: the state (STOPPED
  while the dialog is open) and Remaining keep their values. The object changes in
  nothing but the error label and the callback that removes it.
\<close>

theorem rejected_input_unchanged:
  assumes "case float_of_string input_value of Inl e \<Rightarrow> True | Inr x \<Rightarrow> float_le_zero x"
  shows "process_time_input runs key input_value self =
           Inr (if input_value = [] then self else show_error_message error_text self)
         \<and> state (show_error_message error_text self) = state self
         \<and> remaining (show_error_message error_text self) = remaining self
         \<and> map_sum id state (process_time_input runs key input_value self) = Inr (state self)
         \<and> map_sum id remaining (process_time_input runs key input_value self)
             = Inr (remaining self)"
proof -
  have r: "process_time_input runs key input_value self =
           Inr (if input_value = [] then self else show_error_message error_text self)"
  proof (cases "input_value = []")
    case True
    then show ?thesis by (simp add: process_time_input_def)
  next
    case False
    show ?thesis
    proof (cases "float_of_string input_value")
      case (Inl e)
      then show ?thesis using False by (simp add: process_time_input_cases)
    next
      case (Inr x)
      then have "float_le_zero x" using assms by simp
      then show ?thesis using False Inr by (cases x) (simp_all add: process_time_input_cases)
    qed
  qed
  have s: "state (show_error_message error_text self) = state self"
    "remaining (show_error_message error_text self) = remaining self"
    by (simp_all add: show_error_message_def)
  have m: "map_sum id state (process_time_input runs key input_value self) = Inr (state self)"
    "map_sum id remaining (process_time_input runs key input_value self) = Inr (remaining self)"
    unfolding r using s by (cases "input_value = []"; simp)+
  from r s m show ?thesis by blast
qed

theorem rejected_input_unchanged_witness:
  "(case float_of_string ''-3'' of Inl e \<Rightarrow> True | Inr x \<Rightarrow> float_le_zero x)
   \<and> process_time_input player_ok ''f'' ''-3'' (init_timer default_config) =
         Inr (show_error_message error_text (init_timer default_config))
   \<and> map_sum id state (process_time_input player_ok ''f'' ''-3'' (init_timer default_config))
       = Inr STOPPED
   \<and> map_sum id remaining (process_time_input player_ok ''f'' ''-3'' (init_timer default_config))
       = Inr 0"
proof -
  have h: "case float_of_string ''-3'' of Inl e \<Rightarrow> True | Inr x \<Rightarrow> float_le_zero x"
    by (simp add: float_of_string_minus_3)
  have i: "state (init_timer default_config) = STOPPED" "remaining (init_timer default_config) = 0"
    by (simp_all add: init_timer_def)
  from rejected_input_unchanged[OF h, of player_ok "''f''" "init_timer default_config"] h
  show ?thesis by (simp add: i)
qed

text \<open>
  C6, as amended. \<open>update_timer\<close> changes Remaining only in state RUNNING, and then by
  \<open>- 1\<close>; when \<open>pause_timer\<close> changes Remaining, it does so through \<open>update_timer\<close> on
  the object it has set to RUNNING. A tick in state RUNNING with Remaining \<open>\<le> 0\<close> plays
  the alarm once and sets the state to STOPPED; whatever ticks, Pausar and Detener
  commands follow, the state stays STOPPED and nothing more is played. The alarm runs
  the sound player \<open>repetitions\<close> times when every run of the player starts (not at all
  when \<open>repetitions \<le> 0\<close>); when run \<open>k\<close> is the first that cannot be started, the player
  has run \<open>k\<close> times, the error is printed and the loop ends.
\<close>

theorem alarm_fires_once:
  "(remaining (update_timer runs self) \<noteq> remaining self \<longrightarrow>
      state self = RUNNING \<and> remaining (update_timer runs self) = remaining self - 1)
   \<and> (remaining (pause_timer runs self) \<noteq> remaining self \<longrightarrow>
      state self = PAUSED
      \<and> pause_timer runs self =
          update_timer runs (self\<lparr>state := RUNNING, pausar_text := ''Pausar''\<rparr>))
   \<and> (state self = RUNNING \<and> remaining self \<le> 0 \<longrightarrow>
        state (update_timer runs self) = STOPPED
      \<and> effects (update_timer runs self) =
          effects self @ alarm_loop runs (config self) 0 (nat (repetitions (config self)))
      \<and> ((\<forall>i < nat (repetitions (config self)). runs i) \<longrightarrow>
            times_played (alarm_loop runs (config self) 0 (nat (repetitions (config self))))
              = nat (repetitions (config self)))
      \<and> (\<forall>k < nat (repetitions (config self)). \<not> runs k \<and> (\<forall>i<k. runs i) \<longrightarrow>
            alarm_loop runs (config self) 0 (nat (repetitions (config self))) =
              concat (replicate k [Afplay (volume (config self)) (sound_file (config self)), Sleep])
              @ [PrintError]
          \<and> times_played (alarm_loop runs (config self) 0 (nat (repetitions (config self)))) = k)
      \<and> (\<forall>evs later.
            state (mainloop later evs (update_timer runs self)) = STOPPED
          \<and> effects (mainloop later evs (update_timer runs self))
              = effects (update_timer runs self)))"
proof (intro conjI impI)
  assume "remaining (update_timer runs self) \<noteq> remaining self"
  then show "state self = RUNNING" "remaining (update_timer runs self) = remaining self - 1"
    by (auto simp: update_timer_def update_display_def play_alarm_def split: if_splits)
next
  assume a: "remaining (pause_timer runs self) \<noteq> remaining self"
  then show p: "state self = PAUSED"
    by (auto simp: pause_timer_def Let_def split: if_splits)
  then show "pause_timer runs self =
          update_timer runs (self\<lparr>state := RUNNING, pausar_text := ''Pausar''\<rparr>)"
    by (simp add: pause_timer_def Let_def)
next
  assume a: "state self = RUNNING \<and> remaining self \<le> 0"
  then show st: "state (update_timer runs self) = STOPPED"
    by (simp add: update_timer_def update_display_def play_alarm_def)
  show "effects (update_timer runs self) =
          effects self @ alarm_loop runs (config self) 0 (nat (repetitions (config self)))"
    using a by (simp add: update_timer_def update_display_def play_alarm_def)
  show "\<forall>evs later.
            state (mainloop later evs (update_timer runs self)) = STOPPED
          \<and> effects (mainloop later evs (update_timer runs self))
              = effects (update_timer runs self)"
    using mainloop_stopped[OF st] by blast
  show "\<forall>k < nat (repetitions (config self)). \<not> runs k \<and> (\<forall>i<k. runs i) \<longrightarrow>
            alarm_loop runs (config self) 0 (nat (repetitions (config self))) =
              concat (replicate k [Afplay (volume (config self)) (sound_file (config self)), Sleep])
              @ [PrintError]
          \<and> times_played (alarm_loop runs (config self) 0 (nat (repetitions (config self)))) = k"
    using times_played_first_failure by blast
next
  assume "\<forall>i < nat (repetitions (config self)). runs i"
  then show "times_played (alarm_loop runs (config self) 0 (nat (repetitions (config self))))
              = nat (repetitions (config self))"
    by (rule times_played_all_run)
qed

theorem alarm_fires_once_witness:
  "remaining (update_timer player_ok (running_at 10)) \<noteq> remaining (running_at 10)
   \<and> state (running_at 10) = RUNNING
   \<and> state (running_at 0) = RUNNING \<and> remaining (running_at 0) \<le> 0
   \<and> nat (repetitions (config (running_at 0))) = 3
   \<and> player_ok 0 \<and> player_ok 1 \<and> player_ok 2
   \<and> state (update_timer player_ok (running_at 0)) = STOPPED
   \<and> times_played (alarm_loop player_ok (config (running_at 0)) 0
         (nat (repetitions (config (running_at 0))))) = nat (repetitions (config (running_at 0)))
   \<and> effects (mainloop player_ok [Tick, PausePressed, Tick] (update_timer player_ok (running_at 0)))
       = effects (update_timer player_ok (running_at 0))"
proof -
  have a: "remaining (update_timer player_ok (running_at 10)) \<noteq> remaining (running_at 10)"
    by (simp add: running_at_def init_timer_def update_timer_def update_display_def)
  have b: "state (running_at 0) = RUNNING \<and> remaining (running_at 0) \<le> 0"
    by (simp add: running_at_def init_timer_def)
  have c: "\<forall>i < nat (repetitions (config (running_at 0))). player_ok i"
    by (simp add: player_ok_def)
  from alarm_fires_once[of player_ok "running_at 10"] a
  have 1: "state (running_at 10) = RUNNING" by blast
  from alarm_fires_once[of player_ok "running_at 0"] b c
  have 2: "state (update_timer player_ok (running_at 0)) = STOPPED"
    and 3: "times_played (alarm_loop player_ok (config (running_at 0)) 0
         (nat (repetitions (config (running_at 0))))) = nat (repetitions (config (running_at 0)))"
    and 4: "effects (mainloop player_ok [Tick, PausePressed, Tick] (update_timer player_ok (running_at 0)))
       = effects (update_timer player_ok (running_at 0))"
    by blast+
  have d: "nat (repetitions (config (running_at 0))) = 3"
    by (simp add: running_at_def init_timer_def default_config_def)
  have e: "player_ok 0 \<and> player_ok 1 \<and> player_ok 2" by (simp add: player_ok_def)
  from a b d e 1 2 3 4 show ?thesis by blast
qed

text \<open>
  As stated, C6 has the sound played exactly \<open>repetitions\<close> times whenever Remaining
  reaches 0 in state RUNNING. With \<open>repetitions = 3\<close> and a player that cannot be started,
  the tick at 0 prints the error and the sound is played 0 times.
\<close>

theorem alarm_player_missing_counterexample:
  "state (running_at 0) = RUNNING \<and> remaining (running_at 0) = 0
   \<and> repetitions (config (running_at 0)) = 3
   \<and> effects (update_timer player_missing (running_at 0)) = [PrintError]
   \<and> times_played (effects (update_timer player_missing (running_at 0))) = 0"
proof -
  have c: "config (running_at 0) = default_config" "effects (running_at 0) = []"
    "state (running_at 0) = RUNNING" "remaining (running_at 0) = 0"
    by (simp_all add: running_at_def init_timer_def)
  have e: "effects (update_timer player_missing (running_at 0)) = [PrintError]"
    by (simp add: update_timer_def update_display_def play_alarm_def c alarm_loop_default_missing)
  show ?thesis
    by (simp add: e c times_played_def) (simp add: default_config_def)
qed

text \<open>
  C7. Whatever the state and the value of Remaining before, \<open>stop_timer\<close> leaves
  Remaining at 0 and the state STOPPED.
\<close>

theorem stop_timer_resets:
  "remaining (stop_timer self) = 0 \<and> state (stop_timer self) = STOPPED"
  by (simp add: stop_timer_def update_display_def)

text \<open>
  C8. Every text that starts the countdown matches \<open>^\d+(\.\d+)?$\<close>: the class has
  \<open>validate_input\<close> for it, and \<open>process_time_input\<close> never calls it. The text \<open>5.\<close>,
  whose keys \<open>handle_key\<close> lets through, does not match, and its confirmation as seconds
  starts the countdown at 5.
\<close>

theorem unvalidated_input_accepted:
  "\<not> validate_input ''5.''
   \<and> handle_key player_ok ''.'' ''5'' (init_timer default_config)
       = Inr (None, init_timer default_config)
   \<and> process_time_input player_ok ''f'' ''5.'' (init_timer default_config) =
       Inr (start_countdown player_ok
             ((init_timer default_config)\<lparr>remaining := 5, dialog_open := False\<rparr>))
   \<and> state (start_countdown player_ok
             ((init_timer default_config)\<lparr>remaining := 5, dialog_open := False\<rparr>)) = RUNNING
   \<and> time_label (start_countdown player_ok
             ((init_timer default_config)\<lparr>remaining := 5, dialog_open := False\<rparr>)) = ''00:00:05''"
proof -
  have v: "\<not> validate_input ''5.''"
    by (simp add: validate_input_def matches_number_def is_digit_def)
  have k: "handle_key player_ok ''.'' ''5'' (init_timer default_config)
       = Inr (None, init_timer default_config)"
    by (simp add: handle_key_def lower_char_def isdigit_def is_digit_def)
  have r5: "round_double 5 = Finite 5" using round_double_int[of 5] by simp
  have p: "process_time_input player_ok ''f'' ''5.'' (init_timer default_config) =
       Inr (start_countdown player_ok
             ((init_timer default_config)\<lparr>remaining := 5, dialog_open := False\<rparr>))"
    by (simp add: process_time_input_cases float_of_string_5_point r5)
  have s: "state (start_countdown player_ok
             ((init_timer default_config)\<lparr>remaining := 5, dialog_open := False\<rparr>)) = RUNNING"
    by (simp add: start_countdown_result)
  have t: "time_label (start_countdown player_ok
             ((init_timer default_config)\<lparr>remaining := 5, dialog_open := False\<rparr>)) = ''00:00:05''"
    by (simp add: start_countdown_result format_time_def fmt_02d_def dec_small digit_char_def)
  from v k p s t show ?thesis by blast
qed

text \<open>
  C9, as amended. For Remaining \<open>R \<ge> 0\<close> the displayed time has three fields of digits
  separated by colons; the minutes and the seconds have exactly two digits and are below
  60; the hours have at least two digits, and exactly two if and only if
  \<open>R < 360000\<close>; and hours * 3600 + minutes * 60 + seconds is \<open>R\<close>.
\<close>

theorem format_time_fields:
  assumes "0 \<le> remaining self"
  shows "(let fs = split_colon (format_time self); h = fs ! 0; m = fs ! 1; s = fs ! 2
          in length fs = 3
           \<and> list_all is_digit h \<and> list_all is_digit m \<and> list_all is_digit s
           \<and> 2 \<le> length h \<and> (length h = 2 \<longleftrightarrow> remaining self < 360000)
           \<and> length m = 2 \<and> length s = 2
           \<and> digits_value m < 60 \<and> digits_value s < 60
           \<and> int (digits_value h) * 3600 + int (digits_value m) * 60 + int (digits_value s)
               = remaining self)"
proof -
  define R where "R = remaining self"
  define h where "h = fmt_02d (R div 3600)"
  define m where "m = fmt_02d ((R mod 3600) div 60)"
  define s where "s = fmt_02d (R mod 60)"
  have R0: "0 \<le> R" using assms by (simp add: R_def)
  have h0: "0 \<le> R div 3600" and m0: "0 \<le> (R mod 3600) div 60" and s0: "0 \<le> R mod 60"
    using R0 by (simp_all add: pos_imp_zdiv_nonneg_iff)
  note H = fmt_02d_nonneg[OF h0, folded h_def]
  note M = fmt_02d_nonneg[OF m0, folded m_def]
  note S = fmt_02d_nonneg[OF s0, folded s_def]
  have ft: "format_time self = h @ CHR '':'' # m @ CHR '':'' # s"
    by (simp add: format_time_def Let_def h_def m_def s_def R_def)
  have sp: "split_colon (format_time self) = [h, m, s]"
    using H(1) M(1) S(1)
    by (simp add: ft split_colon_append split_colon_no_colon digits_no_colon)
  have mlt: "(R mod 3600) div 60 < 60" using R0 by simp
  have slt: "R mod 60 < 60" by simp
  have ml: "length m = 2" using M(4) mlt by simp
  have sl: "length s = 2" using S(4) slt by simp
  have "R div 3600 < 100 \<longleftrightarrow> R < 360000"
    using div_mult_mod_eq[of R 3600] pos_mod_bound[of 3600 R] pos_mod_sign[of 3600 R]
    by linarith
  then have hl: "length h = 2 \<longleftrightarrow> R < 360000" using H(4) by simp
  have mv: "digits_value m < 60" using M(2) mlt m0 by linarith
  have sv: "digits_value s < 60" using S(2) slt s0 by linarith
  have "R mod 3600 mod 60 = R mod 60" by (simp add: mod_mod_cancel)
  then have "R mod 3600 div 60 * 60 + R mod 60 = R mod 3600"
    using div_mult_mod_eq[of "R mod 3600" 60] by simp
  then have "R div 3600 * 3600 + R mod 3600 div 60 * 60 + R mod 60 = R"
    using div_mult_mod_eq[of R 3600] by linarith
  then have tot: "int (digits_value h) * 3600 + int (digits_value m) * 60 + int (digits_value s) = R"
    using H(2) M(2) S(2) h0 m0 s0 by simp
  show ?thesis
    unfolding R_def[symmetric] sp Let_def
    using H(1) M(1) S(1) H(3) hl ml sl mv sv tot by simp
qed

theorem format_time_fields_witness:
  "0 \<le> remaining (running_at 90)
   \<and> (let fs = split_colon (format_time (running_at 90)); h = fs ! 0; m = fs ! 1; s = fs ! 2
          in length fs = 3
           \<and> list_all is_digit h \<and> list_all is_digit m \<and> list_all is_digit s
           \<and> 2 \<le> length h \<and> (length h = 2 \<longleftrightarrow> remaining (running_at 90) < 360000)
           \<and> length m = 2 \<and> length s = 2
           \<and> digits_value m < 60 \<and> digits_value s < 60
           \<and> int (digits_value h) * 3600 + int (digits_value m) * 60 + int (digits_value s)
               = remaining (running_at 90))
   \<and> format_time (running_at 90) = ''00:01:30''"
proof -
  have h: "0 \<le> remaining (running_at 90)" by (simp add: running_at_def init_timer_def)
  have f: "format_time (running_at 90) = ''00:01:30''"
    by (simp add: running_at_def format_time_def fmt_02d_def dec_small dec_big digit_char_def)
  from format_time_fields[OF h] h f show ?thesis by blast
qed

text \<open>
  As stated, C9 has two digits in each field for every \<open>R \<ge> 0\<close>. At
  \<open>R = 360000\<close>, which 6000 minutes give, the hours are \<open>100\<close>.
\<close>

theorem format_time_hundred_hours_counterexample:
  "0 \<le> remaining (running_at 360000)
   \<and> split_colon (format_time (running_at 360000)) = [''100'', ''00'', ''00'']"
  by (simp add: running_at_def init_timer_def format_time_def fmt_02d_def dec_small dec_big
      digit_char_def)

text \<open>
  C10. In state STOPPED \<open>pause_timer\<close> changes nothing: the state stays STOPPED and
  Remaining keeps its value.
\<close>

theorem pause_timer_stopped_noop:
  "state self = STOPPED \<Longrightarrow> pause_timer runs self = self"
  by (simp add: pause_timer_def)

theorem pause_timer_stopped_noop_witness:
  "state (init_timer default_config) = STOPPED
   \<and> pause_timer player_ok (init_timer default_config) = init_timer default_config"
proof -
  have h: "state (init_timer default_config) = STOPPED" by (simp add: init_timer_def)
  from pause_timer_stopped_noop[OF h, of player_ok] h show ?thesis by simp
qed

end
